theory Spec2Isabelle
  imports Complex_Main "HOL-Library.Sublist"
begin

section \<open>Aegis detector: the forensic engine of aegis_final.py\<close>

text \<open>
  The development embeds two functions of \<^verbatim>\<open>aegis_final.py\<close>: \<^verbatim>\<open>run_forensics\<close>
  (lines 47-60), which annotates the fetched frame, and the tick handler
  \<^verbatim>\<open>update_system\<close> (lines 250-332), together with the module-level
  initialisation of \<^verbatim>\<open>df_master\<close> (lines 63-71).

  A data frame is a list of rows. Exceptions of the Python code are values of
  the type \<open>error\<close>; a function that can raise returns \<open>error + 'a\<close>.
\<close>

subsection \<open>Errors and Python primitives\<close>

datatype error = ValueError | IndexError | ZeroDivisionError

text \<open>Python's \<^verbatim>\<open>a // b\<close> and \<^verbatim>\<open>a % b\<close> on integers: floor division, raising on a
  zero divisor. HOL's \<open>div\<close> and \<open>mod\<close> on \<open>int\<close> round the same way.\<close>

definition py_floordiv :: "int \<Rightarrow> int \<Rightarrow> error + int" where
  "py_floordiv a b = (if b = 0 then Inl ZeroDivisionError else Inr (a div b))"

definition py_mod :: "int \<Rightarrow> int \<Rightarrow> error + int" where
  "py_mod a b = (if b = 0 then Inl ZeroDivisionError else Inr (a mod b))"

text \<open>\<^verbatim>\<open>df.iloc[i]\<close>: positional access, a negative position counts from the end,
  a position out of range raises.\<close>

definition iloc :: "'a list \<Rightarrow> int \<Rightarrow> error + 'a" where
  "iloc xs i =
     (if 0 \<le> i \<and> i < int (length xs) then Inr (xs ! nat i)
      else if i < 0 \<and> - int (length xs) \<le> i then Inr (xs ! nat (int (length xs) + i))
      else Inl IndexError)"

text \<open>\<^verbatim>\<open>df.iloc[:k]\<close>: the slice up to position \<open>k\<close>; a negative \<open>k\<close> counts from
  the end; a slice never raises.\<close>

definition iloc_upto :: "'a list \<Rightarrow> int \<Rightarrow> 'a list" where
  "iloc_upto xs k = (if 0 \<le> k then take (nat k) xs else take (length xs - nat (- k)) xs)"

text \<open>\<^verbatim>\<open>int(c)\<close> on a one-character string: the digit's value, \<^verbatim>\<open>ValueError\<close> otherwise.\<close>

definition py_int_char :: "char \<Rightarrow> error + int" where
  "py_int_char c =
     (if c = CHR ''0'' then Inr 0 else if c = CHR ''1'' then Inr 1
      else if c = CHR ''2'' then Inr 2 else if c = CHR ''3'' then Inr 3
      else if c = CHR ''4'' then Inr 4 else if c = CHR ''5'' then Inr 5
      else if c = CHR ''6'' then Inr 6 else if c = CHR ''7'' then Inr 7
      else if c = CHR ''8'' then Inr 8 else if c = CHR ''9'' then Inr 9
      else Inl ValueError)"

definition is_digit :: "char \<Rightarrow> bool" where
  "is_digit c = (c \<in> set ''0123456789'')"

definition digit_val :: "char \<Rightarrow> nat" where
  "digit_val c = (case py_int_char c of Inr d \<Rightarrow> nat d | Inl _ \<Rightarrow> 0)"

definition digit_char :: "nat \<Rightarrow> char" where
  "digit_char d = ''0123456789'' ! (d mod 10)"

text \<open>\<^verbatim>\<open>str(n)\<close> for a non-negative integer.\<close>

fun str_nat :: "nat \<Rightarrow> string" where
  "str_nat n = (if n < 10 then [digit_char n] else str_nat (n div 10) @ [digit_char (n mod 10)])"

declare str_nat.simps [simp del]

text \<open>\<^verbatim>\<open>s.replace('.', '')\<close> and \<^verbatim>\<open>s.lstrip('0')\<close>.\<close>

definition replace_dot :: "string \<Rightarrow> string" where
  "replace_dot s = filter (\<lambda>c. c \<noteq> CHR ''.'') s"

definition lstrip0 :: "string \<Rightarrow> string" where
  "lstrip0 s = dropWhile (\<lambda>c. c = CHR ''0'') s"

subsection \<open>Amounts: finite Python floats\<close>

text \<open>
  The \<^verbatim>\<open>Amount\<close> column holds the JSON numbers of the data source, which the
  code reads through \<^verbatim>\<open>float(x)\<close>. A finite float is modelled by what
  \<^verbatim>\<open>repr\<close> is computed from: its sign and its shortest round-trip decimal,
  the digit string \<open>digits\<close> with the decimal point after the first \<open>decpt\<close>
  digits (value \<open>0.digits * 10 ^ decpt\<close>). Zero is the digit string \<open>''0''\<close>
  with \<open>decpt = 1\<close>. Infinities and NaN are not amounts. Arithmetic on amounts
  is exact arithmetic on the rational value \<open>float_val\<close>: rounding of sums is
  outside the model.
\<close>

datatype pyfloat = PyFloat (negative: bool) (digits: string) (decpt: int)

definition valid_float :: "pyfloat \<Rightarrow> bool" where
  "valid_float x =
     (digits x \<noteq> [] \<and> list_all is_digit (digits x) \<and>
      (digits x = ''0'' \<and> decpt x = 1 \<or>
       hd (digits x) \<noteq> CHR ''0'' \<and> last (digits x) \<noteq> CHR ''0''))"

definition digits_val :: "string \<Rightarrow> nat" where
  "digits_val s = foldl (\<lambda>a c. 10 * a + digit_val c) 0 s"

definition float_val :: "pyfloat \<Rightarrow> rat" where
  "float_val x =
     (let m = of_nat (digits_val (digits x)); e = decpt x - int (length (digits x));
          v = (if 0 \<le> e then m * 10 ^ nat e else m / 10 ^ nat (- e))
      in if negative x then - v else v)"

text \<open>\<^verbatim>\<open>abs(x)\<close> clears the sign.\<close>

definition py_abs :: "pyfloat \<Rightarrow> pyfloat" where
  "py_abs x = PyFloat False (digits x) (decpt x)"

text \<open>\<^verbatim>\<open>str(x)\<close> on a float, as CPython formats the shortest digits: exponent
  notation when \<open>decpt \<le> -4\<close> or \<open>decpt > 16\<close> (values below \<open>1e-4\<close> or from
  \<open>1e16\<close>), positional notation with at least one digit after the point
  otherwise.\<close>

definition py_float_str :: "pyfloat \<Rightarrow> string" where
  "py_float_str x =
     (let ds = digits x; n = int (length ds); p = decpt x;
          body =
            (if p \<le> - 4 \<or> 16 < p then
               take 1 ds @ (if 1 < n then CHR ''.'' # drop 1 ds else [])
               @ [CHR ''e''] @ (if p - 1 < 0 then ''-'' else ''+'')
               @ (if \<bar>p - 1\<bar> < 10 then ''0'' else []) @ str_nat (nat \<bar>p - 1\<bar>)
             else if p \<le> 0 then ''0.'' @ replicate (nat (- p)) CHR ''0'' @ ds
             else if p < n then take (nat p) ds @ CHR ''.'' # drop (nat p) ds
             else ds @ replicate (nat (p - n)) CHR ''0'' @ ''.0'')
      in if negative x then CHR ''-'' # body else body)"

text \<open>The lambda of line 56:
  \<^verbatim>\<open>int(str(abs(float(x))).replace('.', '').lstrip('0')[0]) if abs(float(x)) > 0 else 0\<close>.
  Indexing the empty string raises \<^verbatim>\<open>IndexError\<close>.\<close>

definition first_digit_of :: "pyfloat \<Rightarrow> error + int" where
  "first_digit_of x =
     (if 0 < float_val (py_abs x) then
        (case lstrip0 (replace_dot (py_float_str (py_abs x))) of
           [] \<Rightarrow> Inl IndexError
         | c # _ \<Rightarrow> py_int_char c)
      else Inr 0)"

text \<open>The algorithm in the specification's words (section 4.2): absolute
  value, decimal string without a sign, decimal point removed, leading zero
  characters stripped; 0 if nothing is left, the integer value of the first
  remaining character otherwise.\<close>

definition leading_digit_spec :: "pyfloat \<Rightarrow> error + int" where
  "leading_digit_spec x =
     (let s = lstrip0 (replace_dot (py_float_str (py_abs x)))
      in if s = [] then Inr 0 else py_int_char (hd s))"

text \<open>The four amounts of the specification's examples.\<close>

definition amt_0 :: pyfloat where "amt_0 = PyFloat False ''0'' 1"
definition amt_1234_56 :: pyfloat where "amt_1234_56 = PyFloat False ''123456'' 4"
definition amt_neg_987 :: pyfloat where "amt_neg_987 = PyFloat True ''987'' 3"
definition amt_0_056 :: pyfloat where "amt_0_056 = PyFloat False ''56'' (- 1)"


subsection \<open>Data frames\<close>

text \<open>
  The fetched frame has the columns \<^verbatim>\<open>Award ID\<close>, \<^verbatim>\<open>Recipient Name\<close> and
  \<^verbatim>\<open>Amount\<close> (lines 38-41). \<^verbatim>\<open>run_forensics\<close> adds \<^verbatim>\<open>Anomaly_Flag\<close>,
  \<^verbatim>\<open>first_digit\<close> and \<^verbatim>\<open>Display_Amount\<close>; the placeholder frame of lines 65-71
  has the first two of them and no \<^verbatim>\<open>Display_Amount\<close>. A function on
  \<open>'a raw_row_scheme\<close> reads only the three fetched columns, whatever other
  columns the frame has.
\<close>

record raw_row =
  Award_ID :: string
  Recipient_Name :: string
  Amount :: pyfloat

record row = raw_row +
  Anomaly_Flag :: int
  first_digit :: int
  Display_Amount :: "string option"

text \<open>\<^verbatim>\<open>Series.apply\<close> with a function that may raise: the first exception ends it.\<close>

fun apply_series :: "('a \<Rightarrow> error + 'b) \<Rightarrow> 'a list \<Rightarrow> error + 'b list" where
  "apply_series f [] = Inr []"
| "apply_series f (x # xs) =
     (case f x of
        Inl e \<Rightarrow> Inl e
      | Inr y \<Rightarrow> (case apply_series f xs of Inl e \<Rightarrow> Inl e | Inr ys \<Rightarrow> Inr (y # ys)))"

text \<open>\<^verbatim>\<open>df['Amount'].sum()\<close>, in exact arithmetic.\<close>

definition amount_sum :: "'a raw_row_scheme list \<Rightarrow> rat" where
  "amount_sum df = sum_list (map (\<lambda>r. float_val (Amount r)) df)"

subsection \<open>run\_forensics (lines 47-60)\<close>

text \<open>
  Two library functions are parameters. \<open>fit_predict\<close> is
  \<^verbatim>\<open>IsolationForest(contamination=0.06, random_state=42).fit_predict\<close> as a
  function of the \<^verbatim>\<open>Amount\<close> column: it returns one label per sample, \<open>-1\<close> for
  an outlier and \<open>1\<close> for an inlier. \<open>money\<close> is \<^verbatim>\<open>"${:,.2f}".format\<close>.
  Assigning a column whose length is not the frame's raises \<^verbatim>\<open>ValueError\<close>.
  The three assignments overwrite the columns if the frame already has them.
\<close>

definition annotate_row :: "(rat \<Rightarrow> string) \<Rightarrow> 'a raw_row_scheme \<Rightarrow> int \<Rightarrow> int \<Rightarrow> row" where
  "annotate_row money r flag d =
     \<lparr>Award_ID = Award_ID r, Recipient_Name = Recipient_Name r, Amount = Amount r,
      Anomaly_Flag = flag, first_digit = d,
      Display_Amount = Some (money (float_val (Amount r)))\<rparr>"

definition run_forensics ::
  "(pyfloat list \<Rightarrow> int list) \<Rightarrow> (rat \<Rightarrow> string) \<Rightarrow> 'a raw_row_scheme list \<Rightarrow> error + row list" where
  "run_forensics fit_predict money df =
     (if df = [] then Inr []
      else
        let flags = fit_predict (map Amount df) in
        if length flags \<noteq> length df then Inl ValueError
        else
          (case apply_series (\<lambda>r. first_digit_of (Amount r)) df of
             Inl e \<Rightarrow> Inl e
           | Inr ds \<Rightarrow>
               Inr (map (\<lambda>(r, flag, d). annotate_row money r flag d) (zip df (zip flags ds)))))"

subsection \<open>Initialisation of df\_master (lines 63-71)\<close>

definition placeholder :: row where
  "placeholder =
     \<lparr>Award_ID = ''N/A'', Recipient_Name = ''WAITING FOR DATA CONNECTION...'',
      Amount = PyFloat False ''0'' 1, Anomaly_Flag = 1, first_digit = 0,
      Display_Amount = None\<rparr>"

text \<open>\<open>fetched\<close> is what \<^verbatim>\<open>fetch_real_us_data()\<close> returned. An exception of
  \<^verbatim>\<open>run_forensics\<close> at import time ends the program.\<close>

definition df_master ::
  "(pyfloat list \<Rightarrow> int list) \<Rightarrow> (rat \<Rightarrow> string) \<Rightarrow> raw_row list \<Rightarrow> error + row list" where
  "df_master fit_predict money fetched =
     (case run_forensics fit_predict money fetched of
        Inl e \<Rightarrow> Inl e
      | Inr df \<Rightarrow> Inr (if df = [] then [placeholder] else df))"

subsection \<open>The tick handler update\_system (lines 250-332)\<close>

record log_entry =
  time :: string
  name :: string
  status :: string
  color :: string

text \<open>
  The ten outputs of the callback. A figure is modelled by the data of its
  traces: the Benford figure by the observed series \<^verbatim>\<open>obs\<close> (the fixed expected
  curve and the layout are not modelled), the outlier map by the points of its
  background trace and of its flagged trace; an empty figure has no points.
  The console's children are one line per log entry, modelled by the entries.
\<close>

record outputs =
  live_clock :: string
  live_console :: "log_entry list"
  capital_ticker :: string
  capital_style :: "string option"
  anomaly_ticker :: string
  benford_graph :: "(int \<times> rat) list"
  ml_graph :: "(nat \<times> rat) list \<times> (nat \<times> rat) list"
  audit_table :: "row list"
  log_history :: "log_entry list"
  anomaly_ledger_store :: "row list"

text \<open>The return value of line 256; \<open>now\<close> is the clock reading.\<close>

definition no_data :: "string \<Rightarrow> outputs" where
  "no_data now =
     \<lparr>live_clock = now @ '' UTC'', live_console = [], capital_ticker = ''$0.00'',
      capital_style = None, anomaly_ticker = ''0'', benford_graph = [],
      ml_graph = ([], []), audit_table = [], log_history = [],
      anomaly_ledger_store = []\<rparr>"

text \<open>Lines 258-261: \<^verbatim>\<open>loops\<close>, \<^verbatim>\<open>step\<close> and \<^verbatim>\<open>inf_capital\<close>.\<close>

definition replay_cursor :: "row list \<Rightarrow> int \<Rightarrow> error + (int \<times> int \<times> rat)" where
  "replay_cursor df n =
     (let batch_size = int (length df) in
      case py_floordiv n batch_size of
        Inl e \<Rightarrow> Inl e
      | Inr loops \<Rightarrow>
          (case py_mod n batch_size of
             Inl e \<Rightarrow> Inl e
           | Inr step \<Rightarrow>
               Inr (loops, step,
                    of_int loops * amount_sum df + amount_sum (iloc_upto df (step + 1)))))"

text \<open>Lines 268-274: the status text and colour of the feed line.\<close>

definition feed_status :: "bool \<Rightarrow> string \<Rightarrow> row list \<Rightarrow> string \<times> string" where
  "feed_status is_anomaly award_id current_ledger =
     (let status_text = (if is_anomaly then ''FLAGGED'' else ''PASSED'');
          status_color = (if is_anomaly then ''#ff4d4d'' else ''#00f5d4'');
          existing_ids = set (map Award_ID current_ledger)
      in if is_anomaly \<and> award_id \<in> existing_ids then (''MONITORED'', ''#FFD700'')
         else (status_text, status_color))"

text \<open>Lines 286-288: the deduplicated ledger. A ledger entry is the whole row
  (\<^verbatim>\<open>row.to_dict()\<close>).\<close>

definition ledger_update :: "bool \<Rightarrow> row \<Rightarrow> row list \<Rightarrow> row list" where
  "ledger_update is_anomaly r current_ledger =
     (if is_anomaly \<and> Award_ID r \<notin> set (map Award_ID current_ledger)
      then current_ledger @ [r] else current_ledger)"

text \<open>Line 294. \<^verbatim>\<open>value_counts(normalize=True)\<close> maps every value that occurs
  to its count divided by the number of values; \<^verbatim>\<open>reindex\<close> looks the new index
  up and fills the labels that are missing.\<close>

definition value_counts_normalized :: "int list \<Rightarrow> int \<Rightarrow> rat option" where
  "value_counts_normalized xs v =
     (if v \<in> set xs then Some (of_nat (count_list xs v) / of_nat (length xs)) else None)"

definition reindex :: "(int \<Rightarrow> rat option) \<Rightarrow> int list \<Rightarrow> rat \<Rightarrow> (int \<times> rat) list" where
  "reindex series idx fill_value =
     map (\<lambda>k. (k, case series k of Some v \<Rightarrow> v | None \<Rightarrow> fill_value)) idx"

definition range_1_10 :: "int list" where
  "range_1_10 = [1, 2, 3, 4, 5, 6, 7, 8, 9]"

definition observed_digits :: "row list \<Rightarrow> (int \<times> rat) list" where
  "observed_digits df_vis =
     reindex (value_counts_normalized (map first_digit df_vis)) range_1_10 0"

text \<open>The points (index, amount) of a scatter trace.\<close>

definition points :: "(nat \<times> row) list \<Rightarrow> (nat \<times> rat) list" where
  "points rs = map (\<lambda>(i, r). (i, float_val (Amount r))) rs"

text \<open>
  The handler. \<open>df\<close> is the global \<^verbatim>\<open>df_master\<close>, \<open>n\<close> the tick count
  \<^verbatim>\<open>n_intervals\<close>, \<open>current_logs\<close> and \<open>current_ledger\<close> the two stores
  (\<^verbatim>\<open>None\<close> is read as the empty list, lines 251-252). Both clock readings
  of a tick are the one string \<open>now\<close>.
\<close>

definition update_system ::
  "(rat \<Rightarrow> string) \<Rightarrow> string \<Rightarrow> row list \<Rightarrow> int \<Rightarrow> log_entry list \<Rightarrow> row list \<Rightarrow> error + outputs" where
  "update_system money now df n current_logs current_ledger =
     (if (case df of [] \<Rightarrow> True | r0 # _ \<Rightarrow> Award_ID r0 = ''N/A'') then Inr (no_data now)
      else
        (case replay_cursor df n of
           Inl e \<Rightarrow> Inl e
         | Inr (loops, step, inf_capital) \<Rightarrow>
             (case iloc df step of
                Inl e \<Rightarrow> Inl e
              | Inr row \<Rightarrow>
                  let is_anomaly = (Anomaly_Flag row = - 1);
                      (status_text, status_color) =
                         feed_status is_anomaly (Award_ID row) current_ledger;
                      new_log = \<lparr>time = now, name = take 35 (Recipient_Name row),
                                 status = status_text, color = status_color\<rparr>;
                      appended = current_logs @ [new_log];
                      updated_logs = (if 1000 < length appended then tl appended else appended);
                      updated_ledger = ledger_update is_anomaly row current_ledger;
                      unique_anomaly_count = length updated_ledger;
                      df_vis = iloc_upto df (step + 1);
                      obs = observed_digits df_vis;
                      background_data =
                        (if 0 < loops then enumerate 0 df
                         else enumerate 0 (iloc_upto df (step + 1)));
                      ledger_ids = map Award_ID updated_ledger;
                      anomalies_in_ledger =
                        filter (\<lambda>(i, r). Award_ID r \<in> set ledger_ids) (enumerate 0 df)
                  in Inr \<lparr>live_clock = now @ '' UTC'', live_console = updated_logs,
                          capital_ticker = money inf_capital,
                          capital_style = Some status_color,
                          anomaly_ticker = str_nat unique_anomaly_count,
                          benford_graph = obs,
                          ml_graph = (points background_data, points anomalies_in_ledger),
                          audit_table = updated_ledger, log_history = updated_logs,
                          anomaly_ledger_store = updated_ledger\<rparr>)))"

text \<open>
  A session: the two stores start empty (lines 151-152); after a tick that
  returns, the stores hold the last two outputs; a tick that raises leaves
  them as they were. A tick is its clock reading and its count.
\<close>

type_synonym stores = "log_entry list \<times> row list"

definition tick :: "(rat \<Rightarrow> string) \<Rightarrow> row list \<Rightarrow> stores \<Rightarrow> string \<times> int \<Rightarrow> stores" where
  "tick money df st t =
     (case update_system money (fst t) df (snd t) (fst st) (snd st) of
        Inl e \<Rightarrow> st
      | Inr out \<Rightarrow> (log_history out, anomaly_ledger_store out))"

definition run_ticks :: "(rat \<Rightarrow> string) \<Rightarrow> row list \<Rightarrow> (string \<times> int) list \<Rightarrow> stores" where
  "run_ticks money df ts = foldl (tick money df) ([], []) ts"

subsection \<open>Example frames\<close>

text \<open>Concrete rows and frames on which the theorems below are instantiated.
  \<open>example_money\<close> stands in for the currency formatter there: it renders the
  integer part of a non-negative value.\<close>

definition example_row :: "string \<Rightarrow> pyfloat \<Rightarrow> int \<Rightarrow> int \<Rightarrow> row" where
  "example_row i a flag d =
     \<lparr>Award_ID = i, Recipient_Name = ''RECIPIENT'', Amount = a, Anomaly_Flag = flag,
      first_digit = d, Display_Amount = None\<rparr>"

text \<open>A batch of ten annotated rows with the amounts 1, 2, ..., 10; the last
  row is flagged.\<close>

definition ten_df :: "row list" where
  "ten_df =
     [example_row ''W91-0'' (PyFloat False ''1'' 1) 1 1,
      example_row ''W91-1'' (PyFloat False ''2'' 1) 1 2,
      example_row ''W91-2'' (PyFloat False ''3'' 1) 1 3,
      example_row ''W91-3'' (PyFloat False ''4'' 1) 1 4,
      example_row ''W91-4'' (PyFloat False ''5'' 1) 1 5,
      example_row ''W91-5'' (PyFloat False ''6'' 1) 1 6,
      example_row ''W91-6'' (PyFloat False ''7'' 1) 1 7,
      example_row ''W91-7'' (PyFloat False ''8'' 1) 1 8,
      example_row ''W91-8'' (PyFloat False ''9'' 1) 1 9,
      example_row ''W91-9'' (PyFloat False ''1'' 2) (- 1) 1]"

definition example_money :: "rat \<Rightarrow> string" where
  "example_money x = str_nat (nat \<lfloor>x\<rfloor>)"

text \<open>A batch with a negative amount: 5, then -3.\<close>

definition refund_df :: "row list" where
  "refund_df =
     [example_row ''W91-0'' (PyFloat False ''5'' 1) 1 5,
      example_row ''W91-1'' (PyFloat True ''3'' 1) 1 3]"

text \<open>A batch that starts with a zero amount (leading digit 0): 0, then 1.\<close>

definition zero_df :: "row list" where
  "zero_df =
     [example_row ''W91-0'' (PyFloat False ''0'' 1) 1 0,
      example_row ''W91-1'' (PyFloat False ''1'' 1) 1 1]"




section \<open>Properties\<close>

subsection \<open>Digits and the value of a float\<close>

lemma is_digit_cases:
  "is_digit c \<longleftrightarrow> c = CHR ''0'' \<or> c = CHR ''1'' \<or> c = CHR ''2'' \<or> c = CHR ''3''
     \<or> c = CHR ''4'' \<or> c = CHR ''5'' \<or> c = CHR ''6'' \<or> c = CHR ''7''
     \<or> c = CHR ''8'' \<or> c = CHR ''9''"
  by (auto simp: is_digit_def)

lemma py_int_char_digit:
  "is_digit c \<Longrightarrow> py_int_char c = Inr (int (digit_val c))"
  by (auto simp: is_digit_cases py_int_char_def digit_val_def)

lemma digit_val_le9: "digit_val c \<le> 9"
  by (simp add: digit_val_def py_int_char_def)

lemma digit_val_pos: "is_digit c \<Longrightarrow> c \<noteq> CHR ''0'' \<Longrightarrow> 0 < digit_val c"
  by (auto simp: is_digit_cases py_int_char_def digit_val_def)

lemma foldl_digits_mono: "a \<le> foldl (\<lambda>a c. 10 * a + digit_val c) a s"
proof (induction s arbitrary: a)
  case Nil
  show ?case by simp
next
  case (Cons c s)
  have "a \<le> 10 * a + digit_val c" by simp
  also have "\<dots> \<le> foldl (\<lambda>a c. 10 * a + digit_val c) (10 * a + digit_val c) s"
    by (rule Cons.IH)
  finally show ?case by simp
qed

lemma digits_val_pos:
  assumes "is_digit c" "c \<noteq> CHR ''0''"
  shows "0 < digits_val (c # cs)"
proof -
  have "0 < digit_val c" using assms by (rule digit_val_pos)
  moreover have "digit_val c \<le> foldl (\<lambda>a c. 10 * a + digit_val c) (digit_val c) cs"
    by (rule foldl_digits_mono)
  ultimately show ?thesis by (simp add: digits_val_def)
qed

lemma abs_float_val: "\<bar>float_val x\<bar> = float_val (py_abs x)"
  by (simp add: float_val_def py_abs_def Let_def abs_mult)

lemma float_val_abs_pos:
  assumes "valid_float x" "digits x \<noteq> ''0''"
  shows "0 < float_val (py_abs x)"
proof -
  from assms have "0 < digits_val (digits x)"
    by (cases "digits x") (auto simp: valid_float_def intro!: digits_val_pos)
  then have "(0::rat) < of_nat (digits_val (digits x))" by simp
  then show ?thesis
    by (simp add: float_val_def py_abs_def Let_def zero_less_mult_iff zero_less_divide_iff)
qed

lemma float_val_abs_zero:
  assumes "digits x = ''0''"
  shows "float_val (py_abs x) = 0"
  using assms
  by (simp add: float_val_def py_abs_def Let_def digits_val_def digit_val_def py_int_char_def)

lemma float_val_abs_zero_iff:
  assumes "valid_float x"
  shows "float_val (py_abs x) = 0 \<longleftrightarrow> digits x = ''0''"
  using float_val_abs_pos [OF assms] float_val_abs_zero [of x] by fastforce

subsection \<open>The string pipeline of line 56\<close>

lemma replace_dot_digits: "list_all is_digit s \<Longrightarrow> replace_dot s = s"
  by (induction s) (auto simp: replace_dot_def is_digit_cases)

lemma replace_dot_append: "replace_dot (s @ t) = replace_dot s @ replace_dot t"
  by (simp add: replace_dot_def)

lemma replace_dot_zeros: "replace_dot (replicate k CHR ''0'') = replicate k CHR ''0''"
  by (induction k) (auto simp: replace_dot_def)

lemma lstrip0_zeros: "lstrip0 (replicate k CHR ''0'' @ s) = lstrip0 s"
  by (induction k) (auto simp: lstrip0_def)

lemma lstrip0_nonzero: "c \<noteq> CHR ''0'' \<Longrightarrow> lstrip0 (c # s) = c # s"
  by (simp add: lstrip0_def)

text \<open>Whatever notation \<^verbatim>\<open>str\<close> chooses, the stripped string of a non-zero float
  starts with the first digit of its shortest decimal.\<close>

lemma stripped_head:
  assumes "valid_float x" "digits x \<noteq> ''0''"
  shows "\<exists>rest. lstrip0 (replace_dot (py_float_str (py_abs x))) = hd (digits x) # rest"
proof -
  from assms obtain c cs where ds: "digits x = c # cs" and c: "c \<noteq> CHR ''0''" "is_digit c"
    and all: "list_all is_digit (digits x)"
    by (cases "digits x") (auto simp: valid_float_def)
  from c have cdot: "c \<noteq> CHR ''.''" by (auto simp: is_digit_cases)
  let ?p = "decpt x" and ?n = "int (length (digits x))"
  let ?s = "py_float_str (py_abs x)"
  consider (ex) "?p \<le> - 4 \<or> 16 < ?p" | (small) "\<not> (?p \<le> - 4 \<or> 16 < ?p)" "?p \<le> 0"
    | (mid) "\<not> (?p \<le> - 4 \<or> 16 < ?p)" "0 < ?p" "?p < ?n"
    | (big) "\<not> (?p \<le> - 4 \<or> 16 < ?p)" "0 < ?p" "?n \<le> ?p"
    by linarith
  then show ?thesis
  proof cases
    case ex
    then have "\<exists>t. ?s = c # t"
      using ds by (auto simp: py_float_str_def py_abs_def Let_def)
    then obtain t where "?s = c # t" ..
    then show ?thesis using c cdot ds by (simp add: replace_dot_def lstrip0_def)
  next
    case small
    then have eq: "?s = ''0.'' @ replicate (nat (- ?p)) CHR ''0'' @ digits x"
      by (auto simp: py_float_str_def py_abs_def Let_def)
    have keep: "replace_dot (digits x) = digits x"
      using all by (rule replace_dot_digits)
    have "replace_dot ?s =
          replace_dot ''0.'' @ replace_dot (replicate (nat (- ?p)) CHR ''0'') @ replace_dot (digits x)"
      by (simp only: eq replace_dot_append)
    also have "\<dots> = replace_dot ''0.'' @ replicate (nat (- ?p)) CHR ''0'' @ digits x"
      by (simp only: replace_dot_zeros keep)
    also have "\<dots> = replicate (Suc (nat (- ?p))) CHR ''0'' @ digits x"
      by (simp add: replace_dot_def)
    finally have "lstrip0 (replace_dot ?s) = lstrip0 (digits x)"
      by (simp only: lstrip0_zeros)
    then show ?thesis using ds c by (simp add: lstrip0_nonzero)
  next
    case mid
    then have eq: "?s = take (nat ?p) (digits x) @ CHR ''.'' # drop (nat ?p) (digits x)"
      by (auto simp: py_float_str_def py_abs_def Let_def)
    have keep: "replace_dot (digits x) = digits x"
      using all by (rule replace_dot_digits)
    have "replace_dot ?s =
          replace_dot (take (nat ?p) (digits x)) @ replace_dot (drop (nat ?p) (digits x))"
      unfolding eq by (simp add: replace_dot_def)
    also have "\<dots> = replace_dot (take (nat ?p) (digits x) @ drop (nat ?p) (digits x))"
      by (simp only: replace_dot_append)
    also have "\<dots> = digits x"
      by (simp only: append_take_drop_id keep)
    finally show ?thesis using ds c by (simp add: lstrip0_nonzero)
  next
    case big
    then have "?s = digits x @ replicate (nat (?p - ?n)) CHR ''0'' @ ''.0''"
      by (auto simp: py_float_str_def py_abs_def Let_def)
    then have "\<exists>t. ?s = c # t" using ds by simp
    then obtain t where "?s = c # t" ..
    then show ?thesis using c cdot ds by (simp add: replace_dot_def lstrip0_def)
  qed
qed

lemma stripped_zero:
  assumes "valid_float x" "digits x = ''0''"
  shows "lstrip0 (replace_dot (py_float_str (py_abs x))) = []"
  using assms
  by (auto simp: valid_float_def py_float_str_def py_abs_def Let_def replace_dot_def lstrip0_def)

lemma first_digit_of_valid:
  assumes "valid_float x"
  shows "first_digit_of x =
         Inr (if digits x = ''0'' then 0 else int (digit_val (hd (digits x))))"
proof (cases "digits x = ''0''")
  case True
  then show ?thesis by (simp add: first_digit_of_def float_val_abs_zero)
next
  case False
  from stripped_head [OF assms False] obtain rest
    where r: "lstrip0 (replace_dot (py_float_str (py_abs x))) = hd (digits x) # rest" ..
  from assms have "is_digit (hd (digits x))"
    by (cases "digits x") (auto simp: valid_float_def)
  then have "py_int_char (hd (digits x)) = Inr (int (digit_val (hd (digits x))))"
    by (rule py_int_char_digit)
  then show ?thesis using False r float_val_abs_pos [OF assms False]
    by (simp add: first_digit_of_def)
qed

lemma leading_digit_spec_valid:
  assumes "valid_float x"
  shows "leading_digit_spec x =
         Inr (if digits x = ''0'' then 0 else int (digit_val (hd (digits x))))"
proof (cases "digits x = ''0''")
  case True
  then show ?thesis using stripped_zero [OF assms True] by (simp add: leading_digit_spec_def)
next
  case False
  from stripped_head [OF assms False] obtain rest
    where r: "lstrip0 (replace_dot (py_float_str (py_abs x))) = hd (digits x) # rest" ..
  from assms have "is_digit (hd (digits x))"
    by (cases "digits x") (auto simp: valid_float_def)
  then have "py_int_char (hd (digits x)) = Inr (int (digit_val (hd (digits x))))"
    by (rule py_int_char_digit)
  then show ?thesis using False r by (simp add: leading_digit_spec_def)
qed

lemma first_digit_of_range:
  assumes "valid_float x"
  shows "\<exists>d. first_digit_of x = Inr d \<and> 0 \<le> d \<and> d \<le> 9 \<and> (d = 0 \<longleftrightarrow> \<bar>float_val x\<bar> = 0)"
proof (cases "digits x = ''0''")
  case True
  then show ?thesis using assms
    by (simp add: first_digit_of_valid abs_float_val float_val_abs_zero)
next
  case False
  from assms False have "is_digit (hd (digits x))" "hd (digits x) \<noteq> CHR ''0''"
    by (cases "digits x"; auto simp: valid_float_def)+
  then have "0 < digit_val (hd (digits x))" by (rule digit_val_pos)
  moreover have "digit_val (hd (digits x)) \<le> 9" by (rule digit_val_le9)
  ultimately show ?thesis using assms False
    by (simp add: first_digit_of_valid abs_float_val float_val_abs_zero_iff)
qed

lemma examples_valid:
  "valid_float amt_0" "valid_float amt_1234_56" "valid_float amt_neg_987" "valid_float amt_0_056"
  by (simp_all add: valid_float_def is_digit_def
        amt_0_def amt_1234_56_def amt_neg_987_def amt_0_056_def)

lemma examples_val:
  "float_val amt_0 = 0" "float_val amt_1234_56 = 123456 / 100"
  "float_val amt_neg_987 = - 987" "float_val amt_0_056 = 56 / 1000"
  by (simp_all add: float_val_def digits_val_def digit_val_def py_int_char_def
        amt_0_def amt_1234_56_def amt_neg_987_def amt_0_056_def)

lemma examples_digit:
  "first_digit_of amt_0 = Inr 0" "first_digit_of amt_1234_56 = Inr 1"
  "first_digit_of amt_neg_987 = Inr 9" "first_digit_of amt_0_056 = Inr 5"
  by (simp_all add: first_digit_of_valid examples_valid)
     (simp_all add: digit_val_def py_int_char_def
        amt_0_def amt_1234_56_def amt_neg_987_def amt_0_056_def)

text \<open>
  \<^bold>\<open>Claim C1.\<close> For every (finite) amount, the digit that line 56 computes is the
  digit of the specification's algorithm: absolute value, decimal string, point
  removed, leading zeros stripped, 0 for the empty string and the value of the
  first character otherwise. It lies in \<open>{0..9}\<close> and is 0 exactly when the
  amount's magnitude is zero. The amounts 0, 1234.56, -987.0 and 0.056 get
  the digits 0, 1, 9 and 5.
\<close>

theorem first_digit_of_correct:
  assumes "valid_float x"
  shows "first_digit_of x = leading_digit_spec x
       \<and> (\<exists>d. first_digit_of x = Inr d \<and> 0 \<le> d \<and> d \<le> 9 \<and> (d = 0 \<longleftrightarrow> \<bar>float_val x\<bar> = 0))
       \<and> (float_val amt_0 = 0 \<and> first_digit_of amt_0 = Inr 0)
       \<and> (float_val amt_1234_56 = 123456 / 100 \<and> first_digit_of amt_1234_56 = Inr 1)
       \<and> (float_val amt_neg_987 = - 987 \<and> first_digit_of amt_neg_987 = Inr 9)
       \<and> (float_val amt_0_056 = 56 / 1000 \<and> first_digit_of amt_0_056 = Inr 5)"
proof -
  have "first_digit_of x = leading_digit_spec x"
    using assms by (simp add: first_digit_of_valid leading_digit_spec_valid)
  moreover note first_digit_of_range [OF assms]
  ultimately show ?thesis
    by (simp only: examples_val examples_digit simp_thms)
qed

theorem first_digit_of_correct_witness:
  "valid_float (PyFloat True ''56'' (- 4))
   \<and> first_digit_of (PyFloat True ''56'' (- 4)) = leading_digit_spec (PyFloat True ''56'' (- 4))
   \<and> first_digit_of (PyFloat True ''56'' (- 4)) = Inr 5
   \<and> py_float_str (PyFloat True ''56'' (- 4)) = ''-5.6e-05''"
proof -
  have v: "valid_float (PyFloat True ''56'' (- 4))"
    by (simp add: valid_float_def is_digit_def)
  have d: "first_digit_of (PyFloat True ''56'' (- 4)) = Inr 5"
    by (simp add: first_digit_of_valid [OF v]) (simp add: digit_val_def py_int_char_def)
  have s: "py_float_str (PyFloat True ''56'' (- 4)) = ''-5.6e-05''"
    by (simp add: py_float_str_def str_nat.simps digit_char_def)
  from first_digit_of_correct [OF v] v d s show ?thesis by simp
qed

subsection \<open>The replay cursor (lines 258-261)\<close>



lemma replay_cursor_eq:
  assumes "df \<noteq> []"
  shows "replay_cursor df n =
         Inr (n div int (length df), n mod int (length df),
              of_int (n div int (length df)) * amount_sum df
              + amount_sum (take (Suc (nat (n mod int (length df)))) df))"
proof -
  have pos: "0 < int (length df)" using assms by simp
  then have "0 \<le> n mod int (length df)" by simp
  then have "iloc_upto df (n mod int (length df) + 1) = take (Suc (nat (n mod int (length df)))) df"
    by (simp add: iloc_upto_def nat_add_distrib)
  then show ?thesis using pos
    by (simp add: replay_cursor_def py_floordiv_def py_mod_def Let_def)
qed



lemma iloc_step:
  assumes "df \<noteq> []"
  shows "iloc df (n mod int (length df)) = Inr (df ! nat (n mod int (length df)))"
proof -
  have "0 < int (length df)" using assms by simp
  then have "0 \<le> n mod int (length df)" "n mod int (length df) < int (length df)"
    by simp_all
  then show ?thesis by (simp add: iloc_def)
qed

lemma iloc_upto_step:
  assumes "df \<noteq> []"
  shows "iloc_upto df (n mod int (length df) + 1) = take (Suc (nat (n mod int (length df)))) df"
proof -
  have "0 < int (length df)" using assms by simp
  then have "0 \<le> n mod int (length df)" by simp
  then show ?thesis by (simp add: iloc_upto_def nat_add_distrib)
qed

lemma update_system_eq:
  fixes df :: "row list" and n :: int and ledger :: "row list" and logs :: "log_entry list"
    and now :: string
  assumes "df \<noteq> []" "Award_ID (hd df) \<noteq> ''N/A''"
  defines "step \<equiv> n mod int (length df)"
  defines "r \<equiv> df ! nat step"
  defines "anomaly \<equiv> (Anomaly_Flag r = - 1)"
  defines "entry \<equiv> \<lparr>time = now, name = take 35 (Recipient_Name r),
                      status = fst (feed_status anomaly (Award_ID r) ledger),
                      color = snd (feed_status anomaly (Award_ID r) ledger)\<rparr>"
  defines "updated_logs \<equiv> (if 1000 < length (logs @ [entry]) then tl (logs @ [entry]) else logs @ [entry])"
  defines "updated_ledger \<equiv> ledger_update anomaly r ledger"
  shows "update_system money now df n logs ledger =
         Inr \<lparr>live_clock = now @ '' UTC'', live_console = updated_logs,
              capital_ticker =
                money (of_int (n div int (length df)) * amount_sum df
                       + amount_sum (take (Suc (nat step)) df)),
              capital_style = Some (snd (feed_status anomaly (Award_ID r) ledger)),
              anomaly_ticker = str_nat (length updated_ledger),
              benford_graph = observed_digits (take (Suc (nat step)) df),
              ml_graph =
                (points (if 0 < n div int (length df) then enumerate 0 df
                         else enumerate 0 (take (Suc (nat step)) df)),
                 points (filter (\<lambda>(i, r). Award_ID r \<in> set (map Award_ID updated_ledger))
                           (enumerate 0 df))),
              audit_table = updated_ledger, log_history = updated_logs,
              anomaly_ledger_store = updated_ledger\<rparr>"
proof -
  from assms(1,2) have guard: "\<not> (case df of [] \<Rightarrow> True | r0 # _ \<Rightarrow> Award_ID r0 = ''N/A'')"
    by (cases df) auto
  have rc: "replay_cursor df n =
            Inr (n div int (length df), step,
                 of_int (n div int (length df)) * amount_sum df
                 + amount_sum (take (Suc (nat step)) df))"
    unfolding step_def by (rule replay_cursor_eq [OF assms(1)])
  have il: "iloc df step = Inr r"
    unfolding step_def r_def by (rule iloc_step [OF assms(1)])
  have up: "iloc_upto df (step + 1) = take (Suc (nat step)) df"
    unfolding step_def by (rule iloc_upto_step [OF assms(1)])
  show ?thesis
    unfolding update_system_def
    by (simp only: guard if_False rc il up sum.case prod.case Let_def split_beta fst_conv snd_conv
          anomaly_def [symmetric] entry_def [symmetric] updated_logs_def [symmetric]
          updated_ledger_def [symmetric])
qed








lemma float_val_simps:
  "float_val (PyFloat False ''1'' 1) = 1" "float_val (PyFloat False ''2'' 1) = 2"
  "float_val (PyFloat False ''3'' 1) = 3" "float_val (PyFloat False ''4'' 1) = 4"
  "float_val (PyFloat False ''5'' 1) = 5" "float_val (PyFloat False ''6'' 1) = 6"
  "float_val (PyFloat False ''7'' 1) = 7" "float_val (PyFloat False ''8'' 1) = 8"
  "float_val (PyFloat False ''9'' 1) = 9" "float_val (PyFloat False ''1'' 2) = 10"
  by (simp_all add: float_val_def digits_val_def digit_val_def py_int_char_def)

lemma ten_df_facts:
  "length ten_df = 10" "ten_df \<noteq> []" "Award_ID (hd ten_df) \<noteq> ''N/A''"
  "amount_sum ten_df = 55" "float_val (Amount (ten_df ! 0)) = 1"
  "amount_sum (take (Suc 0) ten_df) = 1"
  "amount_sum (take 10 ten_df) = 55"
  by (simp_all add: ten_df_def example_row_def amount_sum_def float_val_simps)

lemma ten_cursor:
  "replay_cursor ten_df 9 = Inr (0, 9, 55)" "replay_cursor ten_df 10 = Inr (1, 0, 56)"
  by (simp_all add: replay_cursor_eq ten_df_facts)




text \<open>
  \<^bold>\<open>Claim C4\<close>, as the code has it. With a batch of ten, tick 9 is cycle 0,
  position 9 and tick 10 is cycle 1, position 0; the capital at tick 9 is the
  full batch sum, and the capital at tick 10 is the capital at tick 9 plus
  \<open>amount[0]\<close>. The claim adds the batch sum once more: on the batch with the
  amounts 1, 2, ..., 10 the capital at tick 10 is 56, not 55 + 1 + 55.
\<close>

theorem cursor_wrap_at_ten:
  fixes df :: "row list"
  assumes "length df = 10"
  shows "\<exists>c9 c10. replay_cursor df 9 = Inr (0, 9, c9) \<and> replay_cursor df 10 = Inr (1, 0, c10)
           \<and> c9 = amount_sum df \<and> c10 = c9 + float_val (Amount (df ! 0))"
proof -
  from assms have ne: "df \<noteq> []" by auto
  have one: "amount_sum (take (Suc 0) df) = float_val (Amount (df ! 0))"
    using ne by (cases df) (simp_all add: amount_sum_def)
  show ?thesis
    using assms one by (simp add: replay_cursor_eq [OF ne])
qed

theorem cursor_wrap_at_ten_witness:
  "length ten_df = 10 \<and> replay_cursor ten_df 9 = Inr (0, 9, 55)
   \<and> replay_cursor ten_df 10 = Inr (1, 0, 56) \<and> amount_sum ten_df = 55
   \<and> float_val (Amount (ten_df ! 0)) = 1"
  using cursor_wrap_at_ten [of ten_df] by (simp add: ten_df_facts ten_cursor)

theorem cursor_wrap_counterexample:
  "length ten_df = 10
   \<and> replay_cursor ten_df 9 = Inr (0, 9, 55)
   \<and> replay_cursor ten_df 10 = Inr (1, 0, 56)
   \<and> (56::rat) \<noteq> 55 + float_val (Amount (ten_df ! 0)) + amount_sum ten_df"
  by (simp add: ten_df_facts ten_cursor)



text \<open>Without the hypothesis the capital can go down: a refund of 3 after an
  amount of 5.\<close>

lemma capital_can_decrease:
  "replay_cursor refund_df 0 = Inr (0, 0, 5) \<and> replay_cursor refund_df 1 = Inr (0, 1, 2)"
  by (simp add: replay_cursor_def py_floordiv_def py_mod_def iloc_upto_def refund_df_def
        example_row_def amount_sum_def float_val_def digits_val_def digit_val_def py_int_char_def)

subsection \<open>The observed digit distribution (line 294)\<close>

lemma observed_entry:
  "observed_digits df_vis =
     map (\<lambda>d. (d, if df_vis = [] then 0
                   else of_nat (count_list (map first_digit df_vis) d) / of_nat (length df_vis)))
       range_1_10"
proof -
  have "(case value_counts_normalized ds d of Some v \<Rightarrow> v | None \<Rightarrow> 0)
        = (if ds = [] then 0 else of_nat (count_list ds d) / of_nat (length ds))" for ds d
    by (auto simp: value_counts_normalized_def count_list_0_iff)
  then show ?thesis by (simp add: observed_digits_def reindex_def)
qed

lemma count_digits_sum:
  assumes "\<forall>x\<in>set ds. 0 \<le> x \<and> x \<le> (9::int)"
  shows "sum_list (map (count_list ds) range_1_10) = length (filter (\<lambda>x. x \<noteq> 0) ds)"
  using assms
proof (induction ds)
  case Nil
  show ?case by (simp add: range_1_10_def)
next
  case (Cons x ds)
  then have IH: "sum_list (map (count_list ds) range_1_10) = length (filter (\<lambda>x. x \<noteq> 0) ds)"
    by simp
  from Cons.prems have "0 \<le> x \<and> x \<le> 9" by simp
  then have "x = 0 \<or> x = 1 \<or> x = 2 \<or> x = 3 \<or> x = 4 \<or> x = 5 \<or> x = 6 \<or> x = 7 \<or> x = 8 \<or> x = 9"
    by arith
  then show ?case using IH by (auto simp: range_1_10_def)
qed

lemma observed_sum:
  assumes "\<forall>r\<in>set df_vis. 0 \<le> first_digit r \<and> first_digit r \<le> 9"
  shows "sum_list (map snd (observed_digits df_vis)) =
         (if df_vis = [] then 0
          else of_nat (length (filter (\<lambda>r. first_digit r \<noteq> 0) df_vis)) / of_nat (length df_vis))"
proof (cases "df_vis = []")
  case True
  then show ?thesis by (simp add: observed_entry range_1_10_def)
next
  case False
  let ?ds = "map first_digit df_vis"
  have "sum_list (map snd (observed_digits df_vis))
        = (\<Sum>d\<leftarrow>range_1_10. of_nat (count_list ?ds d) / of_nat (length df_vis))"
    using False by (simp add: observed_entry comp_def)
  also have "\<dots> = of_nat (sum_list (map (count_list ?ds) range_1_10)) / of_nat (length df_vis)"
    by (simp add: range_1_10_def add_divide_distrib)
  also have "sum_list (map (count_list ?ds) range_1_10) = length (filter (\<lambda>x. x \<noteq> 0) ?ds)"
    by (rule count_digits_sum) (use assms in auto)
  also have "length (filter (\<lambda>x. x \<noteq> 0) ?ds) = length (filter (\<lambda>r. first_digit r \<noteq> 0) df_vis)"
    by (simp add: filter_map comp_def)
  finally show ?thesis using False by simp
qed

text \<open>
  \<^bold>\<open>Claim C5\<close>, as the code has it. The observed series has an entry for every
  digit 1..9, 0 for a digit that is absent. \<^verbatim>\<open>value_counts(normalize=True)\<close>
  divides each count by the number of all records seen, the records of digit 0
  included, and \<^verbatim>\<open>reindex\<close> drops the entry of digit 0 afterwards: the nine
  frequencies sum to the share of records with a non-zero digit. The sum is 1
  when the input is non-empty and no record has digit 0, and 0 for the empty
  input. With the amounts 0 and 1 seen, digit 1 has frequency 1/2, not 1.
\<close>

theorem observed_digits_distribution:
  assumes "\<forall>r\<in>set df_vis. 0 \<le> first_digit r \<and> first_digit r \<le> 9"
  shows "map fst (observed_digits df_vis) = [1, 2, 3, 4, 5, 6, 7, 8, 9]
       \<and> (\<forall>d\<in>set range_1_10.
            map_of (observed_digits df_vis) d =
              Some (if df_vis = [] then 0
                    else of_nat (count_list (map first_digit df_vis) d) / of_nat (length df_vis)))
       \<and> sum_list (map snd (observed_digits df_vis)) =
           (if df_vis = [] then 0
            else of_nat (length (filter (\<lambda>r. first_digit r \<noteq> 0) df_vis))
                 / of_nat (length df_vis))
       \<and> (df_vis \<noteq> [] \<and> (\<forall>r\<in>set df_vis. first_digit r \<noteq> 0)
            \<longrightarrow> sum_list (map snd (observed_digits df_vis)) = 1)"
proof -
  have keys: "map fst (observed_digits df_vis) = [1, 2, 3, 4, 5, 6, 7, 8, 9]"
    by (simp add: observed_entry range_1_10_def)
  have entries: "\<forall>d\<in>set range_1_10.
            map_of (observed_digits df_vis) d =
              Some (if df_vis = [] then 0
                    else of_nat (count_list (map first_digit df_vis) d) / of_nat (length df_vis))"
    by (simp add: observed_entry map_of_map_restrict)
  note total = observed_sum [OF assms]
  have "sum_list (map snd (observed_digits df_vis)) = 1"
    if "df_vis \<noteq> []" "\<forall>r\<in>set df_vis. first_digit r \<noteq> 0"
  proof -
    from that(2) have "filter (\<lambda>r. first_digit r \<noteq> 0) df_vis = df_vis" by simp
    then show ?thesis using that(1) total by simp
  qed
  with keys entries total show ?thesis by blast
qed

lemma zero_df_obs:
  "observed_digits zero_df =
     [(1, 1 / 2), (2, 0), (3, 0), (4, 0), (5, 0), (6, 0), (7, 0), (8, 0), (9, 0)]"
  by (simp add: observed_entry range_1_10_def zero_df_def example_row_def)

theorem observed_digits_distribution_witness:
  "list_all (\<lambda>r. 0 \<le> first_digit r \<and> first_digit r \<le> 9) zero_df
   \<and> map_of (observed_digits zero_df) 1 = Some (1 / 2)
   \<and> sum_list (map snd (observed_digits zero_df)) = 1 / 2
   \<and> sum_list (map snd (observed_digits (tl zero_df))) = 1
   \<and> sum_list (map snd (observed_digits [])) = 0"
proof -
  have a: "\<forall>r\<in>set zero_df. 0 \<le> first_digit r \<and> first_digit r \<le> 9"
    by (simp add: zero_df_def example_row_def)
  have b: "\<forall>r\<in>set (tl zero_df). 0 \<le> first_digit r \<and> first_digit r \<le> 9"
    by (simp add: zero_df_def example_row_def)
  have c: "\<forall>r\<in>set ([] :: row list). 0 \<le> first_digit r \<and> first_digit r \<le> 9" by simp
  from observed_digits_distribution [OF a] observed_digits_distribution [OF b]
    observed_digits_distribution [OF c] a
  show ?thesis
    by (simp add: zero_df_def example_row_def range_1_10_def)
qed

theorem observed_digits_counterexample:
  "zero_df \<noteq> []
   \<and> map first_digit zero_df = [0, 1]
   \<and> first_digit_of (Amount (zero_df ! 0)) = Inr 0
   \<and> first_digit_of (Amount (zero_df ! 1)) = Inr 1
   \<and> map_sum id benford_graph (update_system example_money ''12:00:00'' zero_df 1 [] [])
       = Inr [(1, 1 / 2), (2, 0), (3, 0), (4, 0), (5, 0), (6, 0), (7, 0), (8, 0), (9, 0)]
   \<and> sum_list (map snd (observed_digits zero_df)) = 1 / 2
   \<and> (1 / 2 :: rat) \<noteq> 1"
proof -
  have ne: "zero_df \<noteq> []" "Award_ID (hd zero_df) \<noteq> ''N/A''" "length zero_df = 2"
    by (simp_all add: zero_df_def example_row_def)
  have v: "valid_float (PyFloat False ''0'' 1)" "valid_float (PyFloat False ''1'' 1)"
    by (simp_all add: valid_float_def is_digit_def)
  have d: "first_digit_of (Amount (zero_df ! 0)) = Inr 0" "first_digit_of (Amount (zero_df ! 1)) = Inr 1"
    by (simp_all add: zero_df_def example_row_def first_digit_of_valid v)
       (simp add: digit_val_def py_int_char_def)
  have g: "map_sum id benford_graph (update_system example_money ''12:00:00'' zero_df 1 [] [])
       = Inr (observed_digits zero_df)"
    by (simp add: update_system_eq [OF ne(1,2)] ne(3))
  have m: "map first_digit zero_df = [0, 1]"
    by (simp add: zero_df_def example_row_def)
  have s: "sum_list (map snd (observed_digits zero_df)) = 1 / 2"
    by (simp add: zero_df_obs)
  have o: "observed_digits zero_df =
     [(1, 1 / 2), (2, 0), (3, 0), (4, 0), (5, 0), (6, 0), (7, 0), (8, 0), (9, 0)]"
    by (rule zero_df_obs)
  have "(1 / 2 :: rat) \<noteq> 1" by simp
  with ne(1) m d g [unfolded o] s show ?thesis by (intro conjI)
qed

subsection \<open>The no-data state (lines 254-256, 63-71)\<close>

lemma update_system_no_data:
  assumes "df = [] \<or> Award_ID (hd df) = ''N/A''"
  shows "update_system money now df n logs ledger = Inr (no_data now)"
  using assms by (cases df) (auto simp: update_system_def)

lemma tick_no_data:
  assumes "df = [] \<or> Award_ID (hd df) = ''N/A''"
  shows "tick money df st t = ([], [])"
  by (simp add: tick_def update_system_no_data [OF assms] no_data_def)

lemma run_ticks_snoc: "run_ticks money df (ts @ [t]) = tick money df (run_ticks money df ts) t"
  by (simp add: run_ticks_def)

lemma run_ticks_no_data:
  assumes "df = [] \<or> Award_ID (hd df) = ''N/A''"
  shows "run_ticks money df ts = ([], [])"
proof (induction ts rule: rev_induct)
  case Nil
  show ?case by (simp add: run_ticks_def)
next
  case (snoc t ts)
  show ?case by (simp only: run_ticks_snoc tick_no_data [OF assms])
qed

text \<open>
  \<^bold>\<open>Claim C8.\<close> Annotating the empty frame returns the empty frame. A tick
  against the empty frame returns the no-data outputs of line 256 (the clock,
  \<open>$0.00\<close>, count \<open>0\<close>, empty feed, empty ledger) and is not an exception: the
  division of line 258 and the row access of line 263, which would raise on the
  empty frame, are not reached.
\<close>

theorem empty_batch_no_data:
  "run_forensics fit_predict money ([] :: 'a raw_row_scheme list) = Inr []
   \<and> update_system money now [] n logs ledger = Inr (no_data now)
   \<and> replay_cursor [] n = Inl ZeroDivisionError
   \<and> iloc ([] :: row list) 0 = Inl IndexError
   \<and> live_clock (no_data now) = now @ '' UTC''
   \<and> capital_ticker (no_data now) = ''$0.00''
   \<and> anomaly_ticker (no_data now) = ''0''
   \<and> live_console (no_data now) = []
   \<and> log_history (no_data now) = []
   \<and> audit_table (no_data now) = []
   \<and> anomaly_ledger_store (no_data now) = []
   \<and> benford_graph (no_data now) = []
   \<and> ml_graph (no_data now) = ([], [])
   \<and> run_ticks money [] ts = ([], [])"
proof -
  have "update_system money now [] n logs ledger = Inr (no_data now)"
    by (rule update_system_no_data) simp
  moreover have "run_ticks money [] ts = ([], [])"
    by (rule run_ticks_no_data) simp
  moreover have "replay_cursor [] n = Inl ZeroDivisionError"
    by (simp add: replay_cursor_def py_floordiv_def)
  ultimately show ?thesis
    by (simp add: run_forensics_def iloc_def no_data_def)
qed

theorem empty_batch_no_data_witness:
  "run_forensics (map (\<lambda>x. 1)) example_money ([] :: raw_row list) = Inr []
   \<and> update_system example_money ''12:00:00'' [] 5 [] [] = Inr (no_data ''12:00:00'')
   \<and> live_clock (no_data ''12:00:00'') = ''12:00:00 UTC''
   \<and> run_ticks example_money [] [(''12:00:00'', 0), (''12:00:01'', 1)] = ([], [])"
  using empty_batch_no_data [of "map (\<lambda>x. 1)" example_money "''12:00:00''" 5 "[]" "[]"
      "[(''12:00:00'', 0), (''12:00:01'', 1)]", where ?'a = unit]
  by simp

lemma apply_series_length:
  "apply_series f xs = Inr ys \<Longrightarrow> length ys = length xs"
  by (induction xs arbitrary: ys) (auto split: sum.splits)

lemma run_forensics_empty_iff:
  "run_forensics fit_predict money df = Inr [] \<longleftrightarrow> df = []"
proof
  assume r: "run_forensics fit_predict money df = Inr []"
  show "df = []"
  proof (rule ccontr)
    assume "df \<noteq> []"
    with r show False
      by (auto simp: run_forensics_def Let_def split: if_splits sum.splits
            dest!: apply_series_length)
  qed
next
  assume "df = []"
  then show "run_forensics fit_predict money df = Inr []" by (simp add: run_forensics_def)
qed

text \<open>
  \<^bold>\<open>Claim C10.\<close> When fetching and annotating yields the empty frame,
  \<^verbatim>\<open>df_master\<close> is the single placeholder row with Award ID \<open>N/A\<close> and amount 0.
  On every frame whose first Award ID is \<open>N/A\<close> the handler returns what it
  returns on the empty frame, the no-data outputs, and both stores stay empty
  over any sequence of ticks.
\<close>

theorem placeholder_no_data:
  assumes "run_forensics fit_predict money fetched = Inr []"
  shows "df_master fit_predict money fetched = Inr [placeholder]
       \<and> Award_ID placeholder = ''N/A'' \<and> float_val (Amount placeholder) = 0
       \<and> (\<forall>df. df \<noteq> [] \<and> Award_ID (hd df) = ''N/A'' \<longrightarrow>
            (\<forall>now n logs ledger ts.
               update_system money now df n logs ledger = Inr (no_data now)
             \<and> update_system money now df n logs ledger = update_system money now [] n logs ledger
             \<and> run_ticks money df ts = ([], [])))"
proof -
  have "df_master fit_predict money fetched = Inr [placeholder]"
    using assms by (simp add: df_master_def)
  moreover have "Award_ID placeholder = ''N/A''" by (simp add: placeholder_def)
  moreover have "float_val (Amount placeholder) = 0"
    by (simp add: placeholder_def float_val_def digits_val_def digit_val_def py_int_char_def)
  moreover have "update_system money now df n logs ledger = Inr (no_data now)
             \<and> update_system money now df n logs ledger = update_system money now [] n logs ledger
             \<and> run_ticks money df ts = ([], [])"
    if "df \<noteq> [] \<and> Award_ID (hd df) = ''N/A''" for df now n logs ledger ts
    using that by (simp add: update_system_no_data run_ticks_no_data)
  ultimately show ?thesis by blast
qed

theorem placeholder_no_data_witness:
  "run_forensics (map (\<lambda>x. 1)) example_money ([] :: raw_row list) = Inr []
   \<and> df_master (map (\<lambda>x. 1)) example_money [] = Inr [placeholder]
   \<and> [placeholder] \<noteq> [] \<and> Award_ID (hd [placeholder]) = ''N/A''
   \<and> update_system example_money ''12:00:00'' [placeholder] 7 [] [placeholder] = Inr (no_data ''12:00:00'')
   \<and> run_ticks example_money [placeholder] [(''12:00:00'', 0), (''12:00:01'', 1)] = ([], [])"
proof -
  have e: "run_forensics (map (\<lambda>x. 1)) example_money ([] :: raw_row list) = Inr []"
    by (simp add: run_forensics_def)
  have p: "[placeholder] \<noteq> [] \<and> Award_ID (hd [placeholder]) = ''N/A''"
    by (simp add: placeholder_def)
  from placeholder_no_data [OF e] e p show ?thesis by simp
qed

subsection \<open>Feed status and ledger (lines 263-290)\<close>

lemma feed_status_cases:
  "feed_status a i ledger =
     (if \<not> a then (''PASSED'', ''#00f5d4'')
      else if i \<in> set (map Award_ID ledger) then (''MONITORED'', ''#FFD700'')
      else (''FLAGGED'', ''#ff4d4d''))"
  by (simp add: feed_status_def Let_def)

lemma last_capped:
  "last (if 1000 < length (logs @ [e]) then tl (logs @ [e]) else logs @ [e]) = e"
proof (cases "1000 < length (logs @ [e])")
  case True
  then have "logs \<noteq> []" by auto
  then have "tl (logs @ [e]) = tl logs @ [e]" by simp
  then show ?thesis using True by simp
next
  case False
  then show ?thesis by simp
qed

lemma last_capped_simp:
  "last (if 999 < length logs then tl (logs @ [e]) else logs @ [e]) = e"
  using last_capped [of logs e] by simp

lemma update_system_observe:
  fixes df :: "row list"
  assumes "df \<noteq> []" "Award_ID (hd df) \<noteq> ''N/A''"
  shows "\<exists>out. update_system money now df n logs ledger = Inr out
       \<and> status (last (log_history out)) =
           fst (feed_status (Anomaly_Flag (df ! nat (n mod int (length df))) = - 1)
                  (Award_ID (df ! nat (n mod int (length df)))) ledger)
       \<and> anomaly_ledger_store out =
           ledger_update (Anomaly_Flag (df ! nat (n mod int (length df))) = - 1)
             (df ! nat (n mod int (length df))) ledger
       \<and> audit_table out = anomaly_ledger_store out
       \<and> anomaly_ticker out = str_nat (length (anomaly_ledger_store out))
       \<and> live_console out = log_history out"
  by (simp add: update_system_eq [OF assms] last_capped_simp)

text \<open>
  \<^bold>\<open>Claim C6.\<close> The row observed at a tick is reported \<open>PASSED\<close> and leaves the
  ledger alone when its flag is not \<open>-1\<close>; it is reported \<open>FLAGGED\<close> and
  appended when it is flagged and its id is not in the ledger; it is reported
  \<open>MONITORED\<close> and not appended when it is flagged and its id is there.
  Observing the same flagged row twice from the empty ledger gives \<open>FLAGGED\<close>,
  then \<open>MONITORED\<close>, and the count stays 1.
\<close>

theorem observe_status:
  fixes df :: "row list"
  assumes "df \<noteq> []" "Award_ID (hd df) \<noteq> ''N/A''"
  shows "\<exists>r out. r = df ! nat (n mod int (length df))
       \<and> update_system money now df n logs ledger = Inr out
       \<and> (Anomaly_Flag r \<noteq> - 1 \<longrightarrow>
            status (last (log_history out)) = ''PASSED'' \<and> anomaly_ledger_store out = ledger)
       \<and> (Anomaly_Flag r = - 1 \<and> Award_ID r \<notin> set (map Award_ID ledger) \<longrightarrow>
            status (last (log_history out)) = ''FLAGGED''
          \<and> anomaly_ledger_store out = ledger @ [r])
       \<and> (Anomaly_Flag r = - 1 \<and> Award_ID r \<in> set (map Award_ID ledger) \<longrightarrow>
            status (last (log_history out)) = ''MONITORED''
          \<and> anomaly_ledger_store out = ledger)
       \<and> (Anomaly_Flag r = - 1 \<longrightarrow>
            (\<forall>n' now'. n' mod int (length df) = n mod int (length df) \<longrightarrow>
               (\<exists>out1 out2.
                  update_system money now df n logs [] = Inr out1
                \<and> status (last (log_history out1)) = ''FLAGGED''
                \<and> anomaly_ticker out1 = ''1''
                \<and> update_system money now' df n' (log_history out1) (anomaly_ledger_store out1)
                    = Inr out2
                \<and> status (last (log_history out2)) = ''MONITORED''
                \<and> anomaly_ledger_store out2 = [r]
                \<and> anomaly_ticker out2 = ''1'')))"
proof -
  let ?r = "df ! nat (n mod int (length df))"
  from update_system_observe [OF assms, of money now n logs ledger]
  obtain out where out: "update_system money now df n logs ledger = Inr out"
    "status (last (log_history out)) = fst (feed_status (Anomaly_Flag ?r = - 1) (Award_ID ?r) ledger)"
    "anomaly_ledger_store out = ledger_update (Anomaly_Flag ?r = - 1) ?r ledger"
    by blast
  have one: "str_nat (Suc 0) = ''1''" by (simp add: str_nat.simps digit_char_def)
  have twice: "\<exists>out1 out2.
                  update_system money now df n logs [] = Inr out1
                \<and> status (last (log_history out1)) = ''FLAGGED''
                \<and> anomaly_ticker out1 = ''1''
                \<and> update_system money now' df n' (log_history out1) (anomaly_ledger_store out1)
                    = Inr out2
                \<and> status (last (log_history out2)) = ''MONITORED''
                \<and> anomaly_ledger_store out2 = [?r]
                \<and> anomaly_ticker out2 = ''1''"
    if flag: "Anomaly_Flag ?r = - 1" and same: "n' mod int (length df) = n mod int (length df)"
    for n' now'
  proof -
    from update_system_observe [OF assms, of money now n logs "[]"]
    obtain out1 where o1: "update_system money now df n logs [] = Inr out1"
      "status (last (log_history out1)) = fst (feed_status (Anomaly_Flag ?r = - 1) (Award_ID ?r) [])"
      "anomaly_ledger_store out1 = ledger_update (Anomaly_Flag ?r = - 1) ?r []"
      "anomaly_ticker out1 = str_nat (length (anomaly_ledger_store out1))"
      by blast
    have l1: "anomaly_ledger_store out1 = [?r]"
      using o1(3) flag by (simp add: ledger_update_def)
    from update_system_observe [OF assms, of money now' n' "log_history out1" "[?r]"]
    obtain out2 where o2: "update_system money now' df n' (log_history out1) [?r] = Inr out2"
      "status (last (log_history out2)) = fst (feed_status (Anomaly_Flag ?r = - 1) (Award_ID ?r) [?r])"
      "anomaly_ledger_store out2 = ledger_update (Anomaly_Flag ?r = - 1) ?r [?r]"
      "anomaly_ticker out2 = str_nat (length (anomaly_ledger_store out2))"
      unfolding same by blast
    have l2: "anomaly_ledger_store out2 = [?r]"
      using o2(3) by (simp add: ledger_update_def)
    have s1: "status (last (log_history out1)) = ''FLAGGED''"
      using o1(2) flag by (simp add: feed_status_cases)
    have t1: "anomaly_ticker out1 = ''1''"
      using o1(4) l1 one by simp
    have u2: "update_system money now' df n' (log_history out1) (anomaly_ledger_store out1)
              = Inr out2"
      using o2(1) l1 by simp
    have s2: "status (last (log_history out2)) = ''MONITORED''"
      using o2(2) flag by (simp add: feed_status_cases)
    have t2: "anomaly_ticker out2 = ''1''"
      using o2(4) l2 one by simp
    from o1(1) s1 t1 u2 s2 l2 t2 show ?thesis by blast
  qed
  show ?thesis
    using out twice by (auto simp: feed_status_cases ledger_update_def)
qed

lemma ten_df_rows:
  "Anomaly_Flag (ten_df ! 9) = - 1" "Anomaly_Flag (ten_df ! 0) = 1"
  "Award_ID (ten_df ! 9) = ''W91-9''" "Award_ID (ten_df ! 0) = ''W91-0''"
  by (simp_all add: ten_df_def example_row_def)

theorem observe_status_witness:
  "ten_df \<noteq> [] \<and> Award_ID (hd ten_df) \<noteq> ''N/A''
   \<and> Anomaly_Flag (ten_df ! 0) = 1 \<and> Anomaly_Flag (ten_df ! 9) = - 1
   \<and> (19::int) mod int (length ten_df) = 9 mod int (length ten_df)
   \<and> (\<exists>out. update_system example_money ''12:00:00'' ten_df 0 [] [] = Inr out
           \<and> status (last (log_history out)) = ''PASSED'' \<and> anomaly_ledger_store out = [])
   \<and> (\<exists>out. update_system example_money ''12:00:29'' ten_df 29 [] [ten_df ! 9] = Inr out
           \<and> status (last (log_history out)) = ''MONITORED''
           \<and> anomaly_ledger_store out = [ten_df ! 9])
   \<and> (\<exists>out1 out2.
         update_system example_money ''12:00:09'' ten_df 9 [] [] = Inr out1
       \<and> status (last (log_history out1)) = ''FLAGGED''
       \<and> update_system example_money ''12:00:19'' ten_df 19 (log_history out1)
            (anomaly_ledger_store out1) = Inr out2
       \<and> status (last (log_history out2)) = ''MONITORED''
       \<and> anomaly_ledger_store out2 = [ten_df ! 9]
       \<and> anomaly_ticker out2 = ''1'')"
proof -
  have ne: "ten_df \<noteq> []" "Award_ID (hd ten_df) \<noteq> ''N/A''" by (simp_all add: ten_df_facts)
  have m: "(19::int) mod int (length ten_df) = 9 mod int (length ten_df)"
    by (simp add: ten_df_facts)
  have i0: "nat (0 mod int (length ten_df)) = 0" and i9: "nat (9 mod int (length ten_df)) = 9"
    and i29: "nat (29 mod int (length ten_df)) = 9"
    by (simp_all add: ten_df_facts)
  from observe_status [OF ne, of 0 example_money "''12:00:00''" "[]" "[]"]
  have a: "\<exists>out. update_system example_money ''12:00:00'' ten_df 0 [] [] = Inr out
           \<and> status (last (log_history out)) = ''PASSED'' \<and> anomaly_ledger_store out = []"
    unfolding i0 using ten_df_rows(2) by auto
  from observe_status [OF ne, of 9 example_money "''12:00:09''" "[]" "[]"]
  have b: "\<exists>out1 out2.
         update_system example_money ''12:00:09'' ten_df 9 [] [] = Inr out1
       \<and> status (last (log_history out1)) = ''FLAGGED''
       \<and> update_system example_money ''12:00:19'' ten_df 19 (log_history out1)
            (anomaly_ledger_store out1) = Inr out2
       \<and> status (last (log_history out2)) = ''MONITORED''
       \<and> anomaly_ledger_store out2 = [ten_df ! 9]
       \<and> anomaly_ticker out2 = ''1''"
    unfolding i9 using ten_df_rows(1) m by blast
  from observe_status [OF ne, of 29 example_money "''12:00:29''" "[]" "[ten_df ! 9]"]
  have c: "\<exists>out. update_system example_money ''12:00:29'' ten_df 29 [] [ten_df ! 9] = Inr out
           \<and> status (last (log_history out)) = ''MONITORED''
           \<and> anomaly_ledger_store out = [ten_df ! 9]"
    unfolding i29 using ten_df_rows(1) by auto
  from ne ten_df_rows(2,1) m a c b show ?thesis by (intro conjI)
qed

subsection \<open>The ledger over a session\<close>

lemma tick_ledger:
  fixes df :: "row list"
  assumes "df \<noteq> []" "Award_ID (hd df) \<noteq> ''N/A''"
  shows "snd (tick money df st t) =
         ledger_update (Anomaly_Flag (df ! nat (snd t mod int (length df))) = - 1)
           (df ! nat (snd t mod int (length df))) (snd st)"
  by (simp add: tick_def update_system_eq [OF assms])

lemma step_in_batch:
  fixes df :: "row list"
  assumes "df \<noteq> []"
  shows "df ! nat (n mod int (length df)) \<in> set df"
proof -
  have "0 < int (length df)" using assms by simp
  then have "nat (n mod int (length df)) < length df" by (simp add: nat_less_iff)
  then show ?thesis by (rule nth_mem)
qed

lemma ledger_update_prefix: "prefix l (ledger_update a r l)"
  by (simp add: ledger_update_def)

lemma ledger_update_length: "length (ledger_update a r l) \<le> Suc (length l)"
  by (simp add: ledger_update_def)

lemma ledger_update_distinct:
  "distinct (map Award_ID l) \<Longrightarrow> distinct (map Award_ID (ledger_update a r l))"
  by (auto simp: ledger_update_def)

lemma ledger_update_changed:
  assumes "ledger_update a r l \<noteq> l"
  shows "a \<and> Award_ID r \<notin> set (map Award_ID l) \<and> ledger_update a r l = l @ [r]"
  using assms by (auto simp: ledger_update_def split: if_splits)

lemma distinct_count_le1: "distinct xs \<Longrightarrow> count_list xs a \<le> 1"
  by (induction xs) (auto simp: count_list_0_iff)

lemma run_ticks_append:
  "run_ticks money df (ts @ later) = foldl (tick money df) (run_ticks money df ts) later"
  by (simp add: run_ticks_def)

lemma ledger_reachable:
  fixes df :: "row list"
  shows "distinct (map Award_ID (snd (run_ticks money df ts)))
       \<and> list_all (\<lambda>r. r \<in> set df \<and> Anomaly_Flag r = - 1) (snd (run_ticks money df ts))"
proof (cases "df = [] \<or> Award_ID (hd df) = ''N/A''")
  case True
  then show ?thesis by (simp add: run_ticks_no_data)
next
  case False
  then have ne: "df \<noteq> []" "Award_ID (hd df) \<noteq> ''N/A''" by simp_all
  show ?thesis
  proof (induction ts rule: rev_induct)
    case Nil
    show ?case by (simp add: run_ticks_def)
  next
    case (snoc t ts)
    let ?l = "snd (run_ticks money df ts)"
    let ?r = "df ! nat (snd t mod int (length df))"
    have step: "snd (run_ticks money df (ts @ [t])) = ledger_update (Anomaly_Flag ?r = - 1) ?r ?l"
      by (simp only: run_ticks_snoc tick_ledger [OF ne])
    have "?r \<in> set df" by (rule step_in_batch [OF ne(1)])
    then have "list_all (\<lambda>r. r \<in> set df \<and> Anomaly_Flag r = - 1)
                 (ledger_update (Anomaly_Flag ?r = - 1) ?r ?l)"
      using snoc.IH by (simp add: ledger_update_def)
    then show ?case using snoc.IH by (simp only: step ledger_update_distinct simp_thms)
  qed
qed

lemma ledger_grows:
  fixes df :: "row list"
  shows "prefix (snd (run_ticks money df ts)) (snd (run_ticks money df (ts @ later)))
       \<and> length (snd (run_ticks money df (ts @ later)))
           \<le> length (snd (run_ticks money df ts)) + length later"
proof (cases "df = [] \<or> Award_ID (hd df) = ''N/A''")
  case True
  then show ?thesis by (simp add: run_ticks_no_data)
next
  case False
  then have ne: "df \<noteq> []" "Award_ID (hd df) \<noteq> ''N/A''" by simp_all
  show ?thesis
  proof (induction later rule: rev_induct)
    case Nil
    show ?case by simp
  next
    case (snoc t later)
    let ?l = "snd (run_ticks money df (ts @ later))"
    let ?r = "df ! nat (snd t mod int (length df))"
    have "run_ticks money df (ts @ later @ [t]) = tick money df (run_ticks money df (ts @ later)) t"
      using run_ticks_snoc [of money df "ts @ later" t] by simp
    then have step: "snd (run_ticks money df (ts @ later @ [t]))
                     = ledger_update (Anomaly_Flag ?r = - 1) ?r ?l"
      by (simp only: tick_ledger [OF ne])
    have "prefix ?l (snd (run_ticks money df (ts @ later @ [t])))"
      unfolding step by (rule ledger_update_prefix)
    moreover have "length (snd (run_ticks money df (ts @ later @ [t]))) \<le> Suc (length ?l)"
      unfolding step by (rule ledger_update_length)
    ultimately show ?case using snoc.IH
      by (auto intro: prefix_order.order_trans)
  qed
qed

lemma ledger_change:
  fixes df :: "row list"
  assumes "snd (run_ticks money df (ts @ [t])) \<noteq> snd (run_ticks money df ts)"
  shows "Anomaly_Flag (df ! nat (snd t mod int (length df))) = - 1
       \<and> Award_ID (df ! nat (snd t mod int (length df)))
           \<notin> set (map Award_ID (snd (run_ticks money df ts)))
       \<and> snd (run_ticks money df (ts @ [t]))
           = snd (run_ticks money df ts) @ [df ! nat (snd t mod int (length df))]"
proof (cases "df = [] \<or> Award_ID (hd df) = ''N/A''")
  case True
  with assms show ?thesis by (simp add: run_ticks_no_data)
next
  case False
  then have ne: "df \<noteq> []" "Award_ID (hd df) \<noteq> ''N/A''" by simp_all
  let ?l = "snd (run_ticks money df ts)"
  let ?r = "df ! nat (snd t mod int (length df))"
  have step: "snd (run_ticks money df (ts @ [t])) = ledger_update (Anomaly_Flag ?r = - 1) ?r ?l"
    by (simp only: run_ticks_snoc tick_ledger [OF ne])
  have "ledger_update (Anomaly_Flag ?r = - 1) ?r ?l \<noteq> ?l"
    using assms unfolding step .
  from ledger_update_changed [OF this] show ?thesis unfolding step by blast
qed

text \<open>
  \<^bold>\<open>Claim C7.\<close> After any sequence of ticks from the empty stores, the ids of
  the ledger are pairwise distinct (no id occurs twice), every entry is a
  flagged row of the batch, the ledger after further ticks extends the ledger
  before them (it never shrinks and keeps its order) by at most one entry per
  tick, and a tick that changes the ledger appends the row at its position,
  which is flagged and whose id was not yet in the ledger.
\<close>

theorem ledger_invariant:
  fixes df :: "row list"
  shows "distinct (map Award_ID (snd (run_ticks money df ts)))
       \<and> (\<forall>i. count_list (map Award_ID (snd (run_ticks money df ts))) i \<le> 1)
       \<and> list_all (\<lambda>r. r \<in> set df \<and> Anomaly_Flag r = - 1) (snd (run_ticks money df ts))
       \<and> prefix (snd (run_ticks money df ts)) (snd (run_ticks money df (ts @ later)))
       \<and> length (snd (run_ticks money df (ts @ later)))
           \<le> length (snd (run_ticks money df ts)) + length later
       \<and> (snd (run_ticks money df (ts @ [t])) \<noteq> snd (run_ticks money df ts) \<longrightarrow>
            Anomaly_Flag (df ! nat (snd t mod int (length df))) = - 1
          \<and> Award_ID (df ! nat (snd t mod int (length df)))
              \<notin> set (map Award_ID (snd (run_ticks money df ts)))
          \<and> snd (run_ticks money df (ts @ [t]))
              = snd (run_ticks money df ts) @ [df ! nat (snd t mod int (length df))])"
proof -
  have d: "distinct (map Award_ID (snd (run_ticks money df ts)))"
    and a: "list_all (\<lambda>r. r \<in> set df \<and> Anomaly_Flag r = - 1) (snd (run_ticks money df ts))"
    using ledger_reachable [of money df ts] by simp_all
  have c: "\<forall>i. count_list (map Award_ID (snd (run_ticks money df ts))) i \<le> 1"
  proof
    fix i
    show "count_list (map Award_ID (snd (run_ticks money df ts))) i \<le> 1"
      using d by (rule distinct_count_le1)
  qed
  have p: "prefix (snd (run_ticks money df ts)) (snd (run_ticks money df (ts @ later)))"
    and l: "length (snd (run_ticks money df (ts @ later)))
           \<le> length (snd (run_ticks money df ts)) + length later"
    using ledger_grows [of money df ts later] by simp_all
  have g: "snd (run_ticks money df (ts @ [t])) \<noteq> snd (run_ticks money df ts) \<longrightarrow>
            Anomaly_Flag (df ! nat (snd t mod int (length df))) = - 1
          \<and> Award_ID (df ! nat (snd t mod int (length df)))
              \<notin> set (map Award_ID (snd (run_ticks money df ts)))
          \<and> snd (run_ticks money df (ts @ [t]))
              = snd (run_ticks money df ts) @ [df ! nat (snd t mod int (length df))]"
    by (rule impI) (rule ledger_change)
  from d c a p l g show ?thesis by (intro conjI)
qed

lemma ten_ledger:
  "snd (run_ticks example_money ten_df []) = []"
  "snd (run_ticks example_money ten_df [(''12:00:09'', 9)]) = [ten_df ! 9]"
  "snd (run_ticks example_money ten_df [(''12:00:09'', 9), (''12:00:19'', 19), (''12:00:20'', 20)])
     = [ten_df ! 9]"
proof -
  have ne: "ten_df \<noteq> []" "Award_ID (hd ten_df) \<noteq> ''N/A''" by (simp_all add: ten_df_facts)
  show "snd (run_ticks example_money ten_df []) = []" by (simp add: run_ticks_def)
  show "snd (run_ticks example_money ten_df [(''12:00:09'', 9)]) = [ten_df ! 9]"
    by (simp add: run_ticks_def tick_ledger [OF ne] ten_df_facts ten_df_rows ledger_update_def)
  show "snd (run_ticks example_money ten_df [(''12:00:09'', 9), (''12:00:19'', 19), (''12:00:20'', 20)])
     = [ten_df ! 9]"
    by (simp add: run_ticks_def tick_ledger [OF ne] ten_df_facts ten_df_rows ledger_update_def)
qed

theorem ledger_invariant_witness:
  "snd (run_ticks example_money ten_df []) = []
   \<and> snd (run_ticks example_money ten_df ([] @ [(''12:00:09'', 9)])) = [ten_df ! 9]
   \<and> snd (run_ticks example_money ten_df ([] @ [(''12:00:09'', 9)]))
       \<noteq> snd (run_ticks example_money ten_df [])
   \<and> Anomaly_Flag (ten_df ! nat (snd (''12:00:09'', 9 :: int) mod int (length ten_df))) = - 1
   \<and> snd (run_ticks example_money ten_df
            ([(''12:00:09'', 9)] @ [(''12:00:19'', 19), (''12:00:20'', 20)])) = [ten_df ! 9]
   \<and> distinct (map Award_ID (snd (run_ticks example_money ten_df
            ([(''12:00:09'', 9)] @ [(''12:00:19'', 19), (''12:00:20'', 20)]))))
   \<and> prefix (snd (run_ticks example_money ten_df [(''12:00:09'', 9)]))
        (snd (run_ticks example_money ten_df
            ([(''12:00:09'', 9)] @ [(''12:00:19'', 19), (''12:00:20'', 20)])))"
proof -
  note a = ledger_invariant [of example_money ten_df "[]" "[]" "(''12:00:09'', 9)"]
  note b = ledger_invariant [of example_money ten_df
      "[(''12:00:09'', 9), (''12:00:19'', 19), (''12:00:20'', 20)]" "[]" "(''12:00:21'', 21)"]
  note c = ledger_invariant [of example_money ten_df "[(''12:00:09'', 9)]"
      "[(''12:00:19'', 19), (''12:00:20'', 20)]" "(''12:00:21'', 21)"]
  have ch: "snd (run_ticks example_money ten_df ([] @ [(''12:00:09'', 9)]))
       \<noteq> snd (run_ticks example_money ten_df [])"
    by (simp add: ten_ledger)
  from a ch have f: "Anomaly_Flag (ten_df ! nat (snd (''12:00:09'', 9 :: int) mod int (length ten_df))) = - 1"
    by blast
  from b have d: "distinct (map Award_ID (snd (run_ticks example_money ten_df
            ([(''12:00:09'', 9)] @ [(''12:00:19'', 19), (''12:00:20'', 20)]))))"
    by simp
  from c have p: "prefix (snd (run_ticks example_money ten_df [(''12:00:09'', 9)]))
        (snd (run_ticks example_money ten_df
            ([(''12:00:09'', 9)] @ [(''12:00:19'', 19), (''12:00:20'', 20)])))"
    by blast
  have e: "snd (run_ticks example_money ten_df ([] @ [(''12:00:09'', 9)])) = [ten_df ! 9]"
    "snd (run_ticks example_money ten_df
            ([(''12:00:09'', 9)] @ [(''12:00:19'', 19), (''12:00:20'', 20)])) = [ten_df ! 9]"
    by (simp_all add: ten_ledger)
  from ten_ledger(1) e(1) ch f e(2) d p show ?thesis by (intro conjI)
qed

subsection \<open>Annotation (lines 47-60)\<close>







end
